theory Spec2Isabelle
  imports Main "HOL-Library.Word"
begin

unbundle bit_operations_syntax

section \<open>Shared memory of the two workers\<close>

text \<open>
  Both workers receive the same two \<open>SharedArrayBuffer\<close>s: \<open>buffer\<close>, viewed as a
  \<open>Uint8Array\<close> (\<open>dataView\<close>), and \<open>flags\<close>, viewed as an \<open>Int32Array\<close>
  (\<open>flagView\<close>) holding \<open>[status, length]\<close>. The status values are
  0 (ready for new data), 1 (data available) and 2 (EOF signal).
\<close>

type_synonym byte = "8 word"

record shared =
  status :: int
  len :: int
  dataView :: "byte list"

definition READY :: int where "READY = 0"
definition DATA_AVAILABLE :: int where "DATA_AVAILABLE = 1"
definition EOF :: int where "EOF = 2"

definition MAX_ITERATIONS :: nat where "MAX_ITERATIONS = 1000000"

text \<open>A value stored into an \<open>Int32Array\<close> is reduced to a signed 32-bit integer.\<close>

definition to_int32 :: "int \<Rightarrow> int" where
  "to_int32 v = (v + 2 ^ 31) mod 2 ^ 32 - 2 ^ 31"

text \<open>\<open>Atomics.wait\<close> returns one of the strings \<open>ok\<close>, \<open>not-equal\<close>, \<open>timed-out\<close>.\<close>

datatype wait_result = WaitOk | NotEqual | TimedOut

text \<open>
  What a worker does to the shared memory, to its hash object and to its waiters, in
  program order. \<open>StoreStatus old new\<close> records the value that the store replaced.
\<close>

datatype event =
    Load int
  | LoadLen int
  | Wait wait_result
  | BufWrite "byte list"
  | StoreLen int
  | StoreStatus int int
  | Notify
  | Update "byte list"

text \<open>
  The other worker runs concurrently. Its effect is an interference on the shared memory
  that takes place before each access of the worker under consideration (\<open>peer\<close>, indexed
  by the number of accesses made so far), together with the fact whether a blocked
  \<open>Atomics.wait\<close> is woken by a notification (\<open>notified\<close>) or runs into its timeout.
\<close>

record env =
  peer :: "nat \<Rightarrow> shared \<Rightarrow> shared"
  notified :: "nat \<Rightarrow> bool"

record agent =
  mem :: shared
  clock :: nat
  trace :: "event list"

definition observe :: "env \<Rightarrow> agent \<Rightarrow> agent" where
  "observe e a = a\<lparr>mem := peer e (clock a) (mem a), clock := Suc (clock a)\<rparr>"

definition emit :: "event \<Rightarrow> agent \<Rightarrow> agent" where
  "emit ev a = a\<lparr>trace := trace a @ [ev]\<rparr>"

text \<open>\<open>Atomics.load(flagView, 0)\<close> and \<open>Atomics.load(flagView, 1)\<close>.\<close>

definition load_status :: "env \<Rightarrow> agent \<Rightarrow> int \<times> agent" where
  "load_status e a = (let a' = observe e a; v = status (mem a') in (v, emit (Load v) a'))"

definition load_len :: "env \<Rightarrow> agent \<Rightarrow> int \<times> agent" where
  "load_len e a = (let a' = observe e a; v = len (mem a') in (v, emit (LoadLen v) a'))"

text \<open>\<open>Atomics.wait(flagView, 0, v, timeout)\<close>: returns at once when the status is not
  \<open>v\<close>; otherwise the worker sleeps until it is notified or the timeout expires.\<close>

definition atomics_wait :: "env \<Rightarrow> int \<Rightarrow> agent \<Rightarrow> wait_result \<times> agent" where
  "atomics_wait e v a =
     (let a' = observe e a;
          r = (if status (mem a') \<noteq> v then NotEqual
               else if notified e (clock a) then WaitOk else TimedOut)
      in (r, emit (Wait r) a'))"

text \<open>\<open>Atomics.store(flagView, 0, v)\<close> and \<open>Atomics.store(flagView, 1, v)\<close>.\<close>

definition store_status :: "env \<Rightarrow> int \<Rightarrow> agent \<Rightarrow> agent" where
  "store_status e v a =
     (let a' = observe e a
      in emit (StoreStatus (status (mem a')) (to_int32 v)) (a'\<lparr>mem := (mem a')\<lparr>status := to_int32 v\<rparr>\<rparr>))"

definition store_len :: "env \<Rightarrow> int \<Rightarrow> agent \<Rightarrow> agent" where
  "store_len e v a =
     (let a' = observe e a
      in emit (StoreLen (to_int32 v)) (a'\<lparr>mem := (mem a')\<lparr>len := to_int32 v\<rparr>\<rparr>))"

text \<open>\<open>Atomics.notify(flagView, 0)\<close>.\<close>

definition notify :: "agent \<Rightarrow> agent" where
  "notify a = emit Notify a"

text \<open>\<open>dataView.set(chunk)\<close> copies the chunk to the start of the buffer and leaves the
  rest as it was; a chunk longer than the buffer raises a \<open>RangeError\<close> (\<open>None\<close>).\<close>

definition dataView_set :: "env \<Rightarrow> byte list \<Rightarrow> agent \<Rightarrow> agent option" where
  "dataView_set e chunk a =
     (let a' = observe e a; b = dataView (mem a')
      in if length chunk > length b then None
         else Some (emit (BufWrite chunk)
                (a'\<lparr>mem := (mem a')\<lparr>dataView := chunk @ drop (length chunk) b\<rparr>\<rparr>)))"

text \<open>\<open>dataView.subarray(0, n)\<close> for \<open>n > 0\<close>: the first \<open>n\<close> bytes, clamped to the
  buffer.\<close>

definition subarray :: "env \<Rightarrow> int \<Rightarrow> agent \<Rightarrow> byte list \<times> agent" where
  "subarray e n a = (let a' = observe e a in (take (nat n) (dataView (mem a')), a'))"

section \<open>Rendering of numbers: \<open>toString(16)\<close>\<close>

definition hex_digit :: "nat \<Rightarrow> char" where
  "hex_digit d = ''0123456789abcdef'' ! (d mod 16)"

fun hex_digits :: "nat \<Rightarrow> string" where
  "hex_digits n = (if n < 16 then [hex_digit n] else hex_digits (n div 16) @ [hex_digit (n mod 16)])"

declare hex_digits.simps [simp del]

text \<open>\<open>Number.prototype.toString(16)\<close> and \<open>BigInt.prototype.toString(16)\<close> on an integer
  value: the digits of the magnitude, after a minus sign when the value is negative.\<close>

definition toString16 :: "int \<Rightarrow> string" where
  "toString16 v = (if v < 0 then CHR ''-'' # hex_digits (nat (- v)) else hex_digits (nat v))"

text \<open>Reading hexadecimal text back, to state that a rendering loses nothing.\<close>

definition hex_digit_value :: "char \<Rightarrow> nat" where
  "hex_digit_value c =
     (let k = (of_char c :: nat)
      in if 48 \<le> k \<and> k \<le> 57 then k - 48
         else if 97 \<le> k \<and> k \<le> 102 then k - 87
         else 0)"

definition hex_value :: "string \<Rightarrow> nat" where
  "hex_value s = foldl (\<lambda>acc c. 16 * acc + hex_digit_value c) 0 s"

definition lower_hex :: "string \<Rightarrow> bool" where
  "lower_hex s = list_all (\<lambda>c. c \<in> set ''0123456789abcdef'') s"

section \<open>Hash adapters of the hasher worker\<close>

text \<open>
  The four algorithms come from libraries outside the repository: \<open>crypto\<close> (sha256),
  \<open>@node-rs/crc32\<close> (\<open>crc32c(chunk, crc)\<close>, a number) and \<open>@node-rs/xxhash\<close>
  (\<open>Xxh64\<close> and \<open>xxh3.Xxh3\<close>, whose \<open>digest()\<close> is a BigInt). They are parameters of the
  model: the state types of the three hash objects and their operations.
\<close>

record ('a, 'b, 'c) hashlibs =
  sha_create :: 'a
  sha_update :: "'a \<Rightarrow> byte list \<Rightarrow> 'a"
  sha_digest_hex :: "'a \<Rightarrow> string"
  crc32c :: "byte list \<Rightarrow> int \<Rightarrow> int"
  xxh64_new :: 'b
  xxh64_update :: "'b \<Rightarrow> byte list \<Rightarrow> 'b"
  xxh64_digest :: "'b \<Rightarrow> int"
  xxh3_withSeed :: 'c
  xxh3_update :: "'c \<Rightarrow> byte list \<Rightarrow> 'c"
  xxh3_digest :: "'c \<Rightarrow> int"

text \<open>The state closed over by \<open>hashFn\<close> and \<open>finalDigest\<close>, one variant per branch of the
  dispatch on \<open>algo\<close>.\<close>

datatype ('a, 'b, 'c) hasher = Sha256 'a | Crc32c int | Xxh64 'b | Xxh3 'c

datatype hasher_error = UnknownAlgorithm string

definition create_hasher :: "('a, 'b, 'c) hashlibs \<Rightarrow> string \<Rightarrow> hasher_error + ('a, 'b, 'c) hasher" where
  "create_hasher L algo =
     (if algo = ''sha256'' then Inr (Sha256 (sha_create L))
      else if algo = ''crc32c'' then Inr (Crc32c 0)
      else if algo = ''xxh64'' then Inr (Xxh64 (xxh64_new L))
      else if algo = ''xxh3-64'' then Inr (Xxh3 (xxh3_withSeed L))
      else Inl (UnknownAlgorithm algo))"

fun hashFn :: "('a, 'b, 'c) hashlibs \<Rightarrow> ('a, 'b, 'c) hasher \<Rightarrow> byte list \<Rightarrow> ('a, 'b, 'c) hasher" where
  "hashFn L (Sha256 h) chunk = Sha256 (sha_update L h chunk)"
| "hashFn L (Crc32c crc) chunk = Crc32c (crc32c L chunk crc)"
| "hashFn L (Xxh64 h) chunk = Xxh64 (xxh64_update L h chunk)"
| "hashFn L (Xxh3 h) chunk = Xxh3 (xxh3_update L h chunk)"

fun finalDigest :: "('a, 'b, 'c) hashlibs \<Rightarrow> ('a, 'b, 'c) hasher \<Rightarrow> string" where
  "finalDigest L (Sha256 h) = sha_digest_hex L h"
| "finalDigest L (Crc32c crc) = toString16 crc"
| "finalDigest L (Xxh64 h) = toString16 (xxh64_digest L h)"
| "finalDigest L (Xxh3 h) = toString16 (xxh3_digest L h)"

section \<open>The reader worker (\<open>worker-reader.js\<close>)\<close>

text \<open>
  \<open>fs.createReadStream(file, { highWaterMark: chunkSize })\<close>, iterated with
  \<open>for await\<close>: a finite sequence of chunks that ends normally or with a read error.
\<close>

datatype stream_item = Chunk "byte list" | ReadFail

datatype reader_error = SourceReadError | PrematureEOF | ReaderTimeout | RangeError

text \<open>The wait for the hasher at the head of each iteration, up to the \<open>throw\<close> on
  \<open>waitCount >= 1000\<close> that follows the loop.\<close>

function reader_wait :: "env \<Rightarrow> nat \<Rightarrow> agent \<Rightarrow> reader_error option \<times> agent" where
  "reader_wait e waitCount a =
     (case load_status e a of (v, a1) \<Rightarrow>
        if v \<noteq> 0 \<and> waitCount < 1000 then
          (case load_status e a1 of (v2, a2) \<Rightarrow>
           case atomics_wait e v2 a2 of (waitResult, a3) \<Rightarrow>
             if waitResult = TimedOut then
               (case load_status e a3 of (currentStatus, a4) \<Rightarrow>
                  if currentStatus = 2 then (Some PrematureEOF, a4)
                  else reader_wait e (Suc waitCount) a4)
             else reader_wait e (Suc waitCount) a3)
        else if waitCount \<ge> 1000 then (Some ReaderTimeout, a1)
        else (None, a1))"
  by pat_completeness auto
termination
  by (relation "measure (\<lambda>(e, waitCount, a). 1000 - waitCount)") auto

declare reader_wait.simps [simp del]

text \<open>One iteration of the \<open>for await\<close> loop on a chunk: the iteration cap, the wait, the
  copy into the shared buffer and the publication.\<close>

datatype reader_step = Break agent | Threw reader_error agent | Published agent

definition reader_cycle :: "env \<Rightarrow> nat \<Rightarrow> byte list \<Rightarrow> agent \<Rightarrow> reader_step" where
  "reader_cycle e iterations chunk a =
     (if Suc iterations > MAX_ITERATIONS then Break a
      else case reader_wait e 0 a of
          (Some err, a1) \<Rightarrow> Threw err a1
        | (None, a1) \<Rightarrow>
            (case dataView_set e chunk a1 of
               None \<Rightarrow> Threw RangeError a1
             | Some a2 \<Rightarrow>
                 Published (notify (store_status e 1 (store_len e (int (length chunk)) a2)))))"

fun reader_loop :: "env \<Rightarrow> nat \<Rightarrow> stream_item list \<Rightarrow> agent \<Rightarrow> reader_error option \<times> agent" where
  "reader_loop e iterations [] a = (None, a)"
| "reader_loop e iterations (ReadFail # rest) a = (Some SourceReadError, a)"
| "reader_loop e iterations (Chunk chunk # rest) a =
     (case reader_cycle e iterations chunk a of
        Break a1 \<Rightarrow> (None, a1)
      | Threw err a1 \<Rightarrow> (Some err, a1)
      | Published a1 \<Rightarrow> reader_loop e (Suc iterations) rest a1)"

text \<open>The wait before the EOF signal; \<open>break\<close> leaves it on a timeout once
  \<open>waitCount > 10\<close>.\<close>

function reader_eof_wait :: "env \<Rightarrow> nat \<Rightarrow> agent \<Rightarrow> nat \<times> agent" where
  "reader_eof_wait e waitCount a =
     (case load_status e a of (v, a1) \<Rightarrow>
        if v \<noteq> 0 \<and> waitCount < 1000 then
          (case load_status e a1 of (v2, a2) \<Rightarrow>
           case atomics_wait e v2 a2 of (waitResult, a3) \<Rightarrow>
             if waitResult = TimedOut \<and> Suc waitCount > 10 then (Suc waitCount, a3)
             else reader_eof_wait e (Suc waitCount) a3)
        else (waitCount, a1))"
  by pat_completeness auto
termination
  by (relation "measure (\<lambda>(e, waitCount, a). 1000 - waitCount)") auto

declare reader_eof_wait.simps [simp del]

text \<open>The \<open>try\<close> block, entered with the iteration counter at \<open>iterations\<close>.\<close>

definition reader_try :: "env \<Rightarrow> nat \<Rightarrow> stream_item list \<Rightarrow> agent \<Rightarrow> reader_error option \<times> agent" where
  "reader_try e iterations stream a =
     (case reader_loop e iterations stream a of
        (Some err, a1) \<Rightarrow> (Some err, a1)
      | (None, a1) \<Rightarrow>
          (case reader_eof_wait e 0 a1 of (waitCount, a2) \<Rightarrow>
             (None, notify (store_status e 2 a2))))"

record reader_result =
  exit_code :: int
  caught :: "reader_error option"
  final :: agent

text \<open>The \<open>try\<close> block with its \<open>catch\<close>, and the \<open>process.exit(0)\<close> after them.\<close>

definition reader_from :: "env \<Rightarrow> nat \<Rightarrow> stream_item list \<Rightarrow> agent \<Rightarrow> reader_result" where
  "reader_from e iterations stream a =
     (case reader_try e iterations stream a of
        (None, a1) \<Rightarrow> \<lparr>exit_code = 0, caught = None, final = a1\<rparr>
      | (Some err, a1) \<Rightarrow>
          \<lparr>exit_code = 0, caught = Some err, final = notify (store_status e 2 a1)\<rparr>)"

definition reader_main :: "env \<Rightarrow> stream_item list \<Rightarrow> agent \<Rightarrow> reader_result" where
  "reader_main e stream a = reader_from e 0 stream a"

section \<open>The hasher worker (\<open>worker-hasher.js\<close>)\<close>

text \<open>The inner loop that waits while the status is 0. The result is \<open>None\<close> when the
  loop never ends; otherwise the flag says whether the worker goes on (\<open>True\<close>) or has
  called \<open>process.exit(1)\<close> (\<open>False\<close>).\<close>

partial_function (option) hasher_wait :: "env \<Rightarrow> nat \<Rightarrow> agent \<Rightarrow> (bool \<times> agent) option" where
  "hasher_wait e iterations a =
     (case load_status e a of (v, a1) \<Rightarrow>
        if v = 0 then
          (case atomics_wait e 0 a1 of (waitResult, a2) \<Rightarrow>
             if waitResult = TimedOut then
               (case load_status e a2 of (currentStatus, a3) \<Rightarrow>
                  if currentStatus = 2 then Some (True, a3)
                  else if iterations > 100 then Some (False, a3)
                  else hasher_wait e iterations a3)
             else hasher_wait e iterations a2)
        else Some (True, a1))"

declare hasher_wait.simps [code]

datatype ('a, 'b, 'c) hasher_step =
    SawEOF agent
  | Exited agent
  | Next "('a, 'b, 'c) hasher" agent

text \<open>What the loop body does with the status it loaded after the wait.\<close>

definition hasher_dispatch ::
  "env \<Rightarrow> ('a, 'b, 'c) hashlibs \<Rightarrow> int \<Rightarrow> ('a, 'b, 'c) hasher \<Rightarrow> agent \<Rightarrow> ('a, 'b, 'c) hasher_step" where
  "hasher_dispatch e L st h a =
     (if st = 2 then SawEOF a
      else if st = 1 then
        (case load_len e a of (n, a1) \<Rightarrow>
           if n > 0 then
             (case subarray e n a1 of (chunk, a2) \<Rightarrow>
                Next (hashFn L h chunk) (notify (store_status e 0 (emit (Update chunk) a2))))
           else Next h (notify (store_status e 0 a1)))
      else Next h a)"

text \<open>One iteration of the \<open>while\<close> loop; \<open>iterations\<close> is the counter after its
  increment.\<close>

definition hasher_cycle ::
  "env \<Rightarrow> ('a, 'b, 'c) hashlibs \<Rightarrow> nat \<Rightarrow> ('a, 'b, 'c) hasher \<Rightarrow> agent \<Rightarrow> ('a, 'b, 'c) hasher_step option" where
  "hasher_cycle e L iterations h a =
     (case hasher_wait e iterations a of
        None \<Rightarrow> None
      | Some (False, a1) \<Rightarrow> Some (Exited a1)
      | Some (True, a1) \<Rightarrow>
          (case load_status e a1 of (st, a2) \<Rightarrow> Some (hasher_dispatch e L st h a2)))"

text \<open>How the hasher ends: it prints the digest and exits with 0, it exits with 1 from
  its wait loop, or the module throws before the loop.\<close>

datatype hasher_exit = Printed string | ExitFailure | Uncaught hasher_error

fun hasher_exit_code :: "hasher_exit \<Rightarrow> int" where
  "hasher_exit_code (Printed d) = 0"
| "hasher_exit_code ExitFailure = 1"
| "hasher_exit_code (Uncaught err) = 1"

function hasher_loop ::
  "env \<Rightarrow> ('a, 'b, 'c) hashlibs \<Rightarrow> nat \<Rightarrow> ('a, 'b, 'c) hasher \<Rightarrow> agent \<Rightarrow> (hasher_exit \<times> agent) option" where
  "hasher_loop e L iterations h a =
     (if iterations < MAX_ITERATIONS then
        (case hasher_cycle e L (Suc iterations) h a of
           None \<Rightarrow> None
         | Some (SawEOF a1) \<Rightarrow> Some (Printed (finalDigest L h), a1)
         | Some (Exited a1) \<Rightarrow> Some (ExitFailure, a1)
         | Some (Next h' a1) \<Rightarrow> hasher_loop e L (Suc iterations) h' a1)
      else Some (Printed (finalDigest L h), a))"
  by pat_completeness auto
termination
  by (relation "measure (\<lambda>(e, L, iterations, h, a). MAX_ITERATIONS - iterations)") auto

declare hasher_loop.simps [simp del]

definition hasher_main ::
  "env \<Rightarrow> ('a, 'b, 'c) hashlibs \<Rightarrow> string \<Rightarrow> agent \<Rightarrow> (hasher_exit \<times> agent) option" where
  "hasher_main e L algo a =
     (case create_hasher L algo of
        Inl err \<Rightarrow> Some (Uncaught err, a)
      | Inr h \<Rightarrow> hasher_loop e L 0 h (notify (store_status e 0 a)))"

section \<open>The orchestrator\<close>

text \<open>The shared memory as \<open>testWorkerSharedHashPerformance\<close> allocates and initialises
  it: a zeroed buffer of \<open>CHUNK_SIZE\<close> bytes, status 0 and length 0.\<close>

definition shared_init :: "nat \<Rightarrow> agent" where
  "shared_init CHUNK_SIZE =
     \<lparr>mem = \<lparr>status = 0, len = 0, dataView = replicate CHUNK_SIZE 0\<rparr>, clock = 0, trace = []\<rparr>"

text \<open>A peer that does nothing: it changes no shared memory and notifies nobody.\<close>

definition quiet :: env where
  "quiet = \<lparr>peer = (\<lambda>t m. m), notified = (\<lambda>t. False)\<rparr>"

text \<open>The orchestrator's exit handlers: \<open>if (code === 0) resolve(); else reject(...)\<close>.\<close>

definition exit_resolves :: "int \<Rightarrow> bool" where
  "exit_resolves code = (code = 0)"

text \<open>The read stream of a file that is read without error: its bytes in order, in chunks
  of \<open>highWaterMark\<close> bytes, the last one possibly shorter.\<close>

function chunks_of :: "nat \<Rightarrow> 'a list \<Rightarrow> 'a list list" where
  "chunks_of n xs = (if n = 0 \<or> xs = [] then [] else take n xs # chunks_of n (drop n xs))"
  by pat_completeness auto
termination
  by (relation "measure (\<lambda>(n, xs). length xs)") auto

declare chunks_of.simps [simp del]

definition createReadStream :: "nat \<Rightarrow> byte list \<Rightarrow> stream_item list" where
  "createReadStream highWaterMark file = map Chunk (chunks_of highWaterMark file)"



text \<open>The number that \<open>finalDigest\<close> renders with \<open>toString(16)\<close>; the sha256 digest is
  rendered by the library itself.\<close>

fun digest_number :: "('a, 'b, 'c) hashlibs \<Rightarrow> ('a, 'b, 'c) hasher \<Rightarrow> int option" where
  "digest_number L (Sha256 h) = None"
| "digest_number L (Crc32c crc) = Some crc"
| "digest_number L (Xxh64 h) = Some (xxh64_digest L h)"
| "digest_number L (Xxh3 h) = Some (xxh3_digest L h)"

text \<open>Readings of a trace: the chunks passed to the hash update, and the changes of the
  status word as pairs of the replaced and the stored value.\<close>

fun updates :: "event list \<Rightarrow> byte list list" where
  "updates [] = []"
| "updates (Update chunk # evs) = chunk # updates evs"
| "updates (ev # evs) = updates evs"

fun transitions :: "event list \<Rightarrow> (int \<times> int) list" where
  "transitions [] = []"
| "transitions (StoreStatus old new # evs) =
     (if old = new then transitions evs else (old, new) # transitions evs)"
| "transitions (ev # evs) = transitions evs"

fun buffer_writes :: "event list \<Rightarrow> byte list list" where
  "buffer_writes [] = []"
| "buffer_writes (BufWrite chunk # evs) = chunk # buffer_writes evs"
| "buffer_writes (ev # evs) = buffer_writes evs"

fun waits :: "event list \<Rightarrow> wait_result list" where
  "waits [] = []"
| "waits (Wait r # evs) = r # waits evs"
| "waits (ev # evs) = waits evs"

section \<open>A reference instance of the libraries\<close>

text \<open>
  CRC-32C (Castagnoli, reflected polynomial \<open>0x82F63B78\<close>) as \<open>crc32c(chunk, crc)\<close>
  computes it, bit by bit: the running value is complemented on entry and on exit. The
  other two libraries are not needed where this instance is used and are left trivial.
\<close>

definition crc_shift :: "32 word \<Rightarrow> 32 word" where
  "crc_shift c = (if bit c 0 then drop_bit 1 c XOR 0x82F63B78 else drop_bit 1 c)"

definition crc_byte :: "32 word \<Rightarrow> byte \<Rightarrow> 32 word" where
  "crc_byte c b =
     crc_shift (crc_shift (crc_shift (crc_shift (crc_shift (crc_shift (crc_shift (crc_shift
       (c XOR ucast b))))))))"

definition crc32c_ref :: "byte list \<Rightarrow> int \<Rightarrow> int" where
  "crc32c_ref chunk crc = uint (NOT (foldl crc_byte (NOT (word_of_int crc)) chunk))"

definition ref_libs :: "(unit, unit, unit) hashlibs" where
  "ref_libs =
     \<lparr>sha_create = (), sha_update = (\<lambda>h chunk. ()), sha_digest_hex = (\<lambda>h. []),
      crc32c = crc32c_ref,
      xxh64_new = (), xxh64_update = (\<lambda>h chunk. ()), xxh64_digest = (\<lambda>h. 0),
      xxh3_withSeed = (), xxh3_update = (\<lambda>h chunk. ()), xxh3_digest = (\<lambda>h. 0)\<rparr>"

text \<open>A peer that, from access number \<open>t0\<close> of the observed worker on, never changes the
  status word again: a stalled, absent or terminated peer.\<close>

definition silent_from :: "nat \<Rightarrow> env \<Rightarrow> bool" where
  "silent_from t0 e \<longleftrightarrow> (\<forall>t m. t0 \<le> t \<longrightarrow> status (peer e t m) = status m)"

text \<open>
  The reader as the hasher sees it when the second read of the file fails while the
  hasher is consuming the first chunk: the chunk is published before the hasher's
  access number 1 (its first load in the wait loop), and the reader's \<open>catch\<close> block
  stores EOF before the hasher's access number 5 (its store of status 0 after the
  update); then the reader has exited. Nobody notifies the hasher while it waits.
\<close>

definition read_error_race :: "byte list \<Rightarrow> env" where
  "read_error_race chunk =
     \<lparr>peer = (\<lambda>t m. if t = 1
                      then m\<lparr>status := 1, len := int (length chunk),
                              dataView := chunk @ drop (length chunk) (dataView m)\<rparr>
                      else if t = 5 then m\<lparr>status := 2\<rparr> else m),
      notified = (\<lambda>t. False)\<rparr>"

text \<open>What one publication of the reader does to the shared memory: \<open>dataView.set\<close>, the
  store of the length and the store of status 1.\<close>

definition publish :: "byte list \<Rightarrow> shared \<Rightarrow> shared" where
  "publish chunk m =
     m\<lparr>dataView := chunk @ drop (length chunk) (dataView m),
       len := to_int32 (int (length chunk)), status := 1\<rparr>"


definition reader_peer :: "byte list list \<Rightarrow> env" where
  "reader_peer ws =
     \<lparr>peer = (\<lambda>t m. if t mod 5 = 1 \<and> t div 5 < length ws then publish (ws ! (t div 5)) m
                      else if t = 5 * length ws + 1 then m\<lparr>status := 2\<rparr> else m),
      notified = (\<lambda>t. False)\<rparr>"

text \<open>
  The reader of an empty file as the hasher sees it when the reader is the faster of the
  two: the reader has stored EOF before the hasher's access number 0, its initial store
  of status 0; then the reader has exited.
\<close>

definition eof_first :: env where
  "eof_first = \<lparr>peer = (\<lambda>t m. if t = 0 then m\<lparr>status := 2\<rparr> else m), notified = (\<lambda>t. False)\<rparr>"

section \<open>Basic facts about the accesses\<close>

lemmas prims = load_status_def load_len_def atomics_wait_def store_status_def store_len_def
  notify_def dataView_set_def subarray_def observe_def emit_def Let_def

lemma to_int32_small [simp]: "to_int32 0 = 0" "to_int32 1 = 1" "to_int32 2 = 2"
  by (simp_all add: to_int32_def)


lemma waits_append [simp]: "waits (xs @ ys) = waits xs @ waits ys"
  by (induction xs rule: waits.induct) auto

lemma updates_append [simp]: "updates (xs @ ys) = updates xs @ updates ys"
  by (induction xs rule: updates.induct) auto

lemma buffer_writes_append [simp]: "buffer_writes (xs @ ys) = buffer_writes xs @ buffer_writes ys"
  by (induction xs rule: buffer_writes.induct) auto

lemma transitions_append [simp]: "transitions (xs @ ys) = transitions xs @ transitions ys"
  by (induction xs rule: transitions.induct) auto

lemma load_status_last: "load_status e a = (v, a') \<Longrightarrow> last (trace a') = Load v"
  by (auto simp: prims)

lemma atomics_wait_last: "atomics_wait e v a = (r, a') \<Longrightarrow> last (trace a') = Wait r"
  by (auto simp: prims)

lemma silent_quiet: "silent_from t0 quiet"
  by (simp add: silent_from_def quiet_def)

lemma load_status_silent:
  assumes "silent_from t0 e" "t0 \<le> clock a"
  shows "\<exists>a'. load_status e a = (status (mem a), a') \<and> status (mem a') = status (mem a) \<and>
           waits (trace a') = waits (trace a) \<and> t0 \<le> clock a'"
  using assms by (simp add: prims silent_from_def)

lemma atomics_wait_silent:
  assumes "silent_from t0 e" "t0 \<le> clock a"
  shows "\<exists>r a'. atomics_wait e (status (mem a)) a = (r, a') \<and> r \<noteq> NotEqual \<and>
           status (mem a') = status (mem a) \<and>
           waits (trace a') = waits (trace a) @ [r] \<and> t0 \<le> clock a'"
  using assms by (simp add: prims silent_from_def)

section \<open>The reader against a peer that never frees the buffer\<close>

lemma reader_wait_silent:
  assumes st: "silent_from t0 e"
  shows "status (mem a) = 1 \<Longrightarrow> t0 \<le> clock a \<Longrightarrow> wc \<le> 1000 \<Longrightarrow>
     \<exists>a'. reader_wait e wc a = (Some ReaderTimeout, a') \<and> status (mem a') = 1 \<and>
          length (waits (trace a')) = length (waits (trace a)) + (1000 - wc)"
proof (induction "1000 - wc" arbitrary: wc a)
  case 0
  then have wc: "wc = 1000" by simp
  obtain a1 where a1: "load_status e a = (1, a1)" "status (mem a1) = 1"
      "waits (trace a1) = waits (trace a)"
    using load_status_silent [OF st, of a] 0 by auto
  show ?case
    by (subst reader_wait.simps) (simp add: a1 wc)
next
  case (Suc n)
  then have wc: "wc < 1000" by simp
  obtain a1 where a1: "load_status e a = (1, a1)" "status (mem a1) = 1"
      "waits (trace a1) = waits (trace a)" "t0 \<le> clock a1"
    using load_status_silent [OF st, of a] Suc by auto
  obtain a2 where a2: "load_status e a1 = (1, a2)" "status (mem a2) = 1"
      "waits (trace a2) = waits (trace a1)" "t0 \<le> clock a2"
    using load_status_silent [OF st, of a1] a1 by auto
  obtain r a3 where a3: "atomics_wait e 1 a2 = (r, a3)" "status (mem a3) = 1"
      "waits (trace a3) = waits (trace a2) @ [r]" "t0 \<le> clock a3"
    using atomics_wait_silent [OF st, of a2] a2 by auto
  obtain a4 where a4: "load_status e a3 = (1, a4)" "status (mem a4) = 1"
      "waits (trace a4) = waits (trace a3)" "t0 \<le> clock a4"
    using load_status_silent [OF st, of a3] a3 by auto
  have n: "n = 1000 - Suc wc" using Suc by simp
  have le: "Suc wc \<le> 1000" using wc by simp
  show ?case
  proof (cases "r = TimedOut")
    case True
    obtain a' where "reader_wait e (Suc wc) a4 = (Some ReaderTimeout, a')" "status (mem a') = 1"
      "length (waits (trace a')) = length (waits (trace a4)) + (1000 - Suc wc)"
      using Suc(1) [OF n a4(2) a4(4) le] by auto
    then show ?thesis
      using wc by (subst reader_wait.simps) (simp add: a1 a2 a3 a4 True)
  next
    case False
    obtain a' where "reader_wait e (Suc wc) a3 = (Some ReaderTimeout, a')" "status (mem a') = 1"
      "length (waits (trace a')) = length (waits (trace a3)) + (1000 - Suc wc)"
      using Suc(1) [OF n a3(2) a3(4) le] by auto
    then show ?thesis
      using wc by (subst reader_wait.simps) (simp add: a1 a2 a3 False)
  qed
qed

lemma atomics_wait_silent_timeout:
  assumes "silent_from t0 e" "t0 \<le> clock a" "\<forall>t. \<not> notified e t"
  shows "\<exists>a'. atomics_wait e (status (mem a)) a = (TimedOut, a') \<and>
           status (mem a') = status (mem a) \<and>
           waits (trace a') = waits (trace a) @ [TimedOut] \<and> t0 \<le> clock a'"
  using assms by (simp add: prims silent_from_def)

lemma reader_eof_wait_silent:
  assumes st: "silent_from t0 e" and nn: "\<forall>t. \<not> notified e t"
  shows "status (mem a) = 1 \<Longrightarrow> t0 \<le> clock a \<Longrightarrow> wc \<le> 10 \<Longrightarrow>
     \<exists>a'. reader_eof_wait e wc a = (11, a') \<and>
          waits (trace a') = waits (trace a) @ replicate (11 - wc) TimedOut"
proof (induction "10 - wc" arbitrary: wc a)
  case 0
  then have wc: "wc = 10" by simp
  obtain a1 where a1: "load_status e a = (1, a1)" "status (mem a1) = 1"
      "waits (trace a1) = waits (trace a)" "t0 \<le> clock a1"
    using load_status_silent [OF st, of a] 0 by auto
  obtain a2 where a2: "load_status e a1 = (1, a2)" "status (mem a2) = 1"
      "waits (trace a2) = waits (trace a1)" "t0 \<le> clock a2"
    using load_status_silent [OF st, of a1] a1 by auto
  obtain a3 where a3: "atomics_wait e 1 a2 = (TimedOut, a3)"
      "waits (trace a3) = waits (trace a2) @ [TimedOut]"
    using atomics_wait_silent_timeout [OF st a2(4) nn] a2 by auto
  show ?case
    by (subst reader_eof_wait.simps) (simp add: a1 a2 a3 wc)
next
  case (Suc n)
  then have wc: "wc < 10" by simp
  obtain a1 where a1: "load_status e a = (1, a1)" "status (mem a1) = 1"
      "waits (trace a1) = waits (trace a)" "t0 \<le> clock a1"
    using load_status_silent [OF st, of a] Suc by auto
  obtain a2 where a2: "load_status e a1 = (1, a2)" "status (mem a2) = 1"
      "waits (trace a2) = waits (trace a1)" "t0 \<le> clock a2"
    using load_status_silent [OF st, of a1] a1 by auto
  obtain a3 where a3: "atomics_wait e 1 a2 = (TimedOut, a3)" "status (mem a3) = 1"
      "waits (trace a3) = waits (trace a2) @ [TimedOut]" "t0 \<le> clock a3"
    using atomics_wait_silent_timeout [OF st a2(4) nn] a2 by auto
  have n: "n = 10 - Suc wc" and le: "Suc wc \<le> 10" using Suc(2) by simp_all
  obtain a' where a': "reader_eof_wait e (Suc wc) a3 = (11, a')"
      "waits (trace a') = waits (trace a3) @ replicate (11 - Suc wc) TimedOut"
    using Suc(1) [OF n a3(2) a3(4) le] by auto
  have "11 - wc = Suc (11 - Suc wc)" using wc by simp
  then have "replicate (11 - wc) TimedOut = TimedOut # replicate (11 - Suc wc) TimedOut"
    by simp
  then show ?case
    using wc a' by (subst reader_eof_wait.simps) (simp add: a1 a2 a3)
qed

text \<open>
  Claim C5 as stated fails: when the source is exhausted the reader declares no timeout.
  With a one-chunk file and a consumer that never moves the status away from
  DATA_AVAILABLE, the reader's last wait loop ends after 11 timed-out waits, no error is
  thrown, and EOF is stored over the publication.
\<close>

theorem reader_declares_no_timeout_when_stream_exhausted:
  "caught (reader_main quiet [Chunk [65]] (shared_init 1)) = None \<and>
   waits (trace (final (reader_main quiet [Chunk [65]] (shared_init 1)))) =
     [TimedOut, TimedOut, TimedOut, TimedOut, TimedOut, TimedOut, TimedOut, TimedOut, TimedOut,
      TimedOut, TimedOut] \<and>
   transitions (trace (final (reader_main quiet [Chunk [65]] (shared_init 1)))) =
     [(READY, DATA_AVAILABLE), (DATA_AVAILABLE, EOF)]"
  by (simp add: reader_main_def reader_from_def reader_try_def reader_cycle_def
      reader_wait.simps reader_eof_wait.simps prims quiet_def shared_init_def
      MAX_ITERATIONS_def to_int32_def READY_def DATA_AVAILABLE_def EOF_def)

text \<open>
  Claim C5, amended. The consumer never moves the status away from DATA_AVAILABLE. While
  a chunk is pending (and the iteration cap is not reached), the wait at the head of the
  reader's iteration gives up after exactly 1000 waits (each bounded by its 100 ms
  timeout), whatever the outcome of each wait; the reader throws its timeout error and
  the \<open>catch\<close> block leaves the status at EOF. When the stream is exhausted, no error is
  thrown and the status is left at EOF all the same; if no wait is ever notified, this
  happens after exactly 11 timed-out waits.
\<close>

theorem reader_timeout_on_stalled_consumer:
  assumes "silent_from (clock a) e" "status (mem a) = DATA_AVAILABLE"
    and "iterations < MAX_ITERATIONS"
  shows "caught (reader_from e iterations (Chunk chunk # rest) a) = Some ReaderTimeout \<and>
         length (waits (trace (final (reader_from e iterations (Chunk chunk # rest) a)))) =
           length (waits (trace a)) + 1000 \<and>
         status (mem (final (reader_from e iterations (Chunk chunk # rest) a))) = EOF \<and>
         caught (reader_from e iterations [] a) = None \<and>
         status (mem (final (reader_from e iterations [] a))) = EOF \<and>
         ((\<forall>t. \<not> notified e t) \<longrightarrow>
            waits (trace (final (reader_from e iterations [] a))) =
              waits (trace a) @ replicate 11 TimedOut)"
proof -
  have s1: "status (mem a) = 1" using assms(2) by (simp add: DATA_AVAILABLE_def)
  obtain a' where a': "reader_wait e 0 a = (Some ReaderTimeout, a')" "status (mem a') = 1"
      "length (waits (trace a')) = length (waits (trace a)) + 1000"
    using reader_wait_silent [OF assms(1) s1, of 0] by auto
  have pending: "caught (reader_from e iterations (Chunk chunk # rest) a) = Some ReaderTimeout \<and>
         length (waits (trace (final (reader_from e iterations (Chunk chunk # rest) a)))) =
           length (waits (trace a)) + 1000 \<and>
         status (mem (final (reader_from e iterations (Chunk chunk # rest) a))) = EOF"
    using assms(3) a'
    by (simp add: reader_from_def reader_try_def reader_cycle_def prims EOF_def)
  have done1: "caught (reader_from e iterations [] a) = None \<and>
         status (mem (final (reader_from e iterations [] a))) = EOF"
    by (simp add: reader_from_def reader_try_def prims EOF_def split: prod.splits)
  have done2: "waits (trace (final (reader_from e iterations [] a))) =
              waits (trace a) @ replicate 11 TimedOut" if nn: "\<forall>t. \<not> notified e t"
  proof -
    obtain a1 where "reader_eof_wait e 0 a = (11, a1)"
        "waits (trace a1) = waits (trace a) @ replicate (11 - 0) TimedOut"
      using reader_eof_wait_silent [OF assms(1) nn s1, of 0] by auto
    then show ?thesis
      by (simp add: reader_from_def reader_try_def prims)
  qed
  show ?thesis using pending done1 done2 by blast
qed

theorem reader_timeout_on_stalled_consumer_witness:
  "silent_from 0 quiet \<and>
   status (mem \<lparr>mem = \<lparr>status = 1, len = 1, dataView = [65]\<rparr>, clock = 0, trace = []\<rparr>)
     = DATA_AVAILABLE \<and>
   0 < MAX_ITERATIONS \<and>
   caught (reader_from quiet 0 [Chunk [66]]
     \<lparr>mem = \<lparr>status = 1, len = 1, dataView = [65]\<rparr>, clock = 0, trace = []\<rparr>)
     = Some ReaderTimeout \<and>
   length (waits (trace (final (reader_from quiet 0 [Chunk [66]]
     \<lparr>mem = \<lparr>status = 1, len = 1, dataView = [65]\<rparr>, clock = 0, trace = []\<rparr>)))) = 1000 \<and>
   status (mem (final (reader_from quiet 0 [Chunk [66]]
     \<lparr>mem = \<lparr>status = 1, len = 1, dataView = [65]\<rparr>, clock = 0, trace = []\<rparr>))) = EOF \<and>
   caught (reader_from quiet 0 []
     \<lparr>mem = \<lparr>status = 1, len = 1, dataView = [65]\<rparr>, clock = 0, trace = []\<rparr>) = None \<and>
   status (mem (final (reader_from quiet 0 []
     \<lparr>mem = \<lparr>status = 1, len = 1, dataView = [65]\<rparr>, clock = 0, trace = []\<rparr>))) = EOF \<and>
   waits (trace (final (reader_from quiet 0 []
     \<lparr>mem = \<lparr>status = 1, len = 1, dataView = [65]\<rparr>, clock = 0, trace = []\<rparr>))) =
     replicate 11 TimedOut"
  using reader_timeout_on_stalled_consumer
    [of "\<lparr>mem = \<lparr>status = 1, len = 1, dataView = [65]\<rparr>, clock = 0, trace = []\<rparr>" quiet 0 "[66]" "[]"]
  by (simp add: silent_quiet DATA_AVAILABLE_def MAX_ITERATIONS_def) (simp add: quiet_def)

section \<open>The end of the reader\<close>

lemma reader_eof_wait_exit:
  "reader_eof_wait e wc a = (wc', a') \<Longrightarrow> wc \<le> 1000 \<Longrightarrow>
     last (trace a') = Load 0 \<or> (10 < wc' \<and> last (trace a') = Wait TimedOut) \<or> wc' = 1000"
proof (induction "1000 - wc" arbitrary: wc a)
  case 0
  then have wc: "wc = 1000" by simp
  obtain v a1 where a1: "load_status e a = (v, a1)" by (cases "load_status e a")
  from 0(2) have "wc' = 1000"
    by (subst (asm) reader_eof_wait.simps) (simp add: a1 wc)
  then show ?case by simp
next
  case (Suc n)
  have n: "n = 1000 - Suc wc" and le: "Suc wc \<le> 1000" and lt: "wc < 1000"
    using Suc(2) by simp_all
  obtain v a1 where a1: "load_status e a = (v, a1)" by (cases "load_status e a")
  obtain v2 a2 where a2: "load_status e a1 = (v2, a2)" by (cases "load_status e a1")
  obtain r a3 where a3: "atomics_wait e v2 a2 = (r, a3)" by (cases "atomics_wait e v2 a2")
  show ?case
  proof (cases "v = 0")
    case True
    with Suc(3) have "a' = a1"
      by (subst (asm) reader_eof_wait.simps) (simp add: a1)
    then show ?thesis using load_status_last [OF a1] True by simp
  next
    case False
    show ?thesis
    proof (cases "r = TimedOut \<and> Suc wc > 10")
      case True
      with Suc(3) False lt have "a' = a3" "wc' = Suc wc"
        by (subst (asm) reader_eof_wait.simps, simp add: a1 a2 a3)+
      then show ?thesis using atomics_wait_last [OF a3] True by simp
    next
      case F2: False
      with Suc(3) False lt have "reader_eof_wait e (Suc wc) a3 = (wc', a')"
        by (subst (asm) reader_eof_wait.simps) (auto simp add: a1 a2 a3)
      then show ?thesis using Suc(1) [OF n _ le] by blast
    qed
  qed
qed

text \<open>
  Claim C10. The reader ends with \<open>process.exit(0)\<close> on every path: whatever the peer
  does and whatever the stream delivers (chunks, a read error), and whether or not an
  error was caught, the exit code is 0, which the orchestrator's exit handler resolves.
\<close>

theorem reader_exit_code_always_zero:
  "exit_code (reader_main e stream a) = 0 \<and> exit_resolves (exit_code (reader_main e stream a))"
  by (simp add: reader_main_def reader_from_def exit_resolves_def
      split: prod.splits option.splits)

section \<open>The hasher against a silent peer\<close>

lemma hasher_wait_silent_aux:
  assumes "hasher_wait e iterations a = Some r"
  shows "silent_from t0 e \<longrightarrow> iterations \<le> 100 \<longrightarrow> t0 \<le> clock a \<longrightarrow> status (mem a) \<noteq> 0"
proof (rule hasher_wait.raw_induct
    [where P = "\<lambda>e it a r. silent_from t0 e \<longrightarrow> it \<le> 100 \<longrightarrow> t0 \<le> clock a \<longrightarrow> status (mem a) \<noteq> 0", OF _ assms])
  fix hw :: "env \<Rightarrow> nat \<Rightarrow> agent \<Rightarrow> (bool \<times> agent) option" and e it a r
  assume IH: "\<And>e it a r. hw e it a = Some r \<Longrightarrow>
          silent_from t0 e \<longrightarrow> it \<le> 100 \<longrightarrow> t0 \<le> clock a \<longrightarrow> status (mem a) \<noteq> 0"
    and step: "(case load_status e a of (v, a1) \<Rightarrow>
        if v = 0 then
          (case atomics_wait e 0 a1 of (waitResult, a2) \<Rightarrow>
             if waitResult = TimedOut then
               (case load_status e a2 of (currentStatus, a3) \<Rightarrow>
                  if currentStatus = 2 then Some (True, a3)
                  else if it > 100 then Some (False, a3)
                  else hw e it a3)
             else hw e it a2)
        else Some (True, a1)) = Some r"
  show "silent_from t0 e \<longrightarrow> it \<le> 100 \<longrightarrow> t0 \<le> clock a \<longrightarrow> status (mem a) \<noteq> 0"
  proof (intro impI notI)
    assume st: "silent_from t0 e" and it: "it \<le> 100" and t: "t0 \<le> clock a"
      and z: "status (mem a) = 0"
    have IH': "\<And>a r. hw e it a = Some r \<Longrightarrow> t0 \<le> clock a \<Longrightarrow> status (mem a) \<noteq> 0"
      using IH st it by blast
    obtain a1 where a1: "load_status e a = (0, a1)" "status (mem a1) = 0" "t0 \<le> clock a1"
      using load_status_silent [OF st t] z by auto
    obtain w a2 where a2: "atomics_wait e 0 a1 = (w, a2)" "status (mem a2) = 0" "t0 \<le> clock a2"
      using atomics_wait_silent [OF st a1(3)] a1(2) by auto
    obtain a3 where a3: "load_status e a2 = (0, a3)" "status (mem a3) = 0" "t0 \<le> clock a3"
      using load_status_silent [OF st a2(3)] a2(2) by auto
    from step it show False
      using IH' [OF _ a2(3)] IH' [OF _ a3(3)] a2(2) a3(2)
      by (auto simp add: a1 a2 a3 split: if_splits)
  qed
qed

lemma hasher_wait_silent:
  "silent_from t0 e \<Longrightarrow> iterations \<le> 100 \<Longrightarrow> t0 \<le> clock a \<Longrightarrow> status (mem a) = 0 \<Longrightarrow>
     hasher_wait e iterations a = None"
  using hasher_wait_silent_aux [of e iterations a _ t0]
  by (cases "hasher_wait e iterations a") auto

lemma hasher_main_silent: 
  assumes "silent_from (clock a) e" "create_hasher L algo = Inr h"
  shows "hasher_main e L algo a = None"
proof -
  let ?a1 = "notify (store_status e 0 a)"
  have "status (mem ?a1) = 0" "clock a \<le> clock ?a1" by (simp_all add: prims)
  then have "hasher_wait e (Suc 0) ?a1 = None"
    using hasher_wait_silent [OF assms(1), of "Suc 0" ?a1] by simp
  then have "hasher_cycle e L (Suc 0) h ?a1 = None" by (simp add: hasher_cycle_def)
  then have "hasher_loop e L 0 h ?a1 = None"
    by (subst hasher_loop.simps) (simp add: MAX_ITERATIONS_def)
  then show ?thesis using assms(2) by (simp add: hasher_main_def)
qed

text \<open>
  Claim C6, evaluated on the code. The producer is absent: the status stays 0 and no
  notification arrives, so every one-second wait times out. The hasher's inner loop
  tests \<open>iterations > 100\<close>, but \<open>iterations\<close> counts iterations of the outer loop and
  is 1 here: the loop never ends, the worker neither exits nor prints a digest.
\<close>

theorem hasher_waits_forever_without_producer:
  "hasher_main quiet ref_libs ''sha256'' (shared_init 4) = None"
  by (rule hasher_main_silent [OF silent_quiet]) (simp add: create_hasher_def)

section \<open>A reader failure while the hasher consumes a chunk\<close>

lemma reader_failure_forces_eof:
  "caught (reader_main e stream a) = Some err \<Longrightarrow>
   status (mem (final (reader_main e stream a))) = EOF \<and>
   (\<exists>pre old. trace (final (reader_main e stream a)) = pre @ [StoreStatus old EOF, Notify])"
  by (auto simp add: reader_main_def reader_from_def prims EOF_def
      split: prod.splits option.splits)

lemma silent_race: "silent_from 6 (read_error_race chunk)"
  by (simp add: silent_from_def read_error_race_def)

lemma race_first_cycle:
  "hasher_cycle (read_error_race [65]) ref_libs (Suc 0) (Crc32c 0)
      (notify (store_status (read_error_race [65]) 0 (shared_init 4))) =
    Some (Next (Crc32c (crc32c_ref [65] 0))
      \<lparr>mem = \<lparr>status = 0, len = 1, dataView = [65, 0, 0, 0]\<rparr>, clock = 6,
        trace = [StoreStatus 0 0, Notify, Load 1, Load 1, LoadLen 1, Update [65],
                 StoreStatus 2 0, Notify]\<rparr>)"
  apply (simp add: hasher_cycle_def)
  apply (subst hasher_wait.simps)
  apply (simp add: prims read_error_race_def shared_init_def hasher_dispatch_def ref_libs_def
      eval_nat_numeral)
  done

text \<open>
  Claim C7, evaluated on the code. The reader publishes one chunk, the next read fails,
  the \<open>catch\<close> block stores EOF and notifies, and the reader exits (first conjunct).
  The hasher had already loaded status 1 and is hashing the chunk; when it is done it
  stores status 0 over the EOF (\<open>StoreStatus 2 0\<close> in its trace) and goes back to
  waiting; with \<open>iterations = 2\<close> its timeout branch never exits: it waits for ever
  (second conjunct).
\<close>

theorem hasher_left_waiting_after_reader_failure:
  "reader_main quiet [Chunk [65], ReadFail]
       \<lparr>mem = \<lparr>status = 0, len = 0, dataView = [0, 0, 0, 0]\<rparr>, clock = 0, trace = []\<rparr> =
     \<lparr>exit_code = 0, caught = Some SourceReadError,
      final = \<lparr>mem = \<lparr>status = 2, len = 1, dataView = [65, 0, 0, 0]\<rparr>, clock = 5,
        trace = [Load 0, BufWrite [65], StoreLen 1, StoreStatus 0 1, Notify,
                 StoreStatus 1 2, Notify]\<rparr>\<rparr> \<and>
   hasher_main (read_error_race [65]) ref_libs ''crc32c'' (shared_init 4) = None"
proof -
  have "hasher_wait (read_error_race [65]) (Suc (Suc 0))
      \<lparr>mem = \<lparr>status = 0, len = 1, dataView = [65, 0, 0, 0]\<rparr>, clock = 6,
        trace = [StoreStatus 0 0, Notify, Load 1, Load 1, LoadLen 1, Update [65],
                 StoreStatus 2 0, Notify]\<rparr> = None"
    by (rule hasher_wait_silent [OF silent_race]) simp_all
  then have "hasher_loop (read_error_race [65]) ref_libs (Suc 0) (Crc32c (crc32c_ref [65] 0))
      \<lparr>mem = \<lparr>status = 0, len = 1, dataView = [65, 0, 0, 0]\<rparr>, clock = 6,
        trace = [StoreStatus 0 0, Notify, Load 1, Load 1, LoadLen 1, Update [65],
                 StoreStatus 2 0, Notify]\<rparr> = None"
    by (subst hasher_loop.simps) (simp add: MAX_ITERATIONS_def hasher_cycle_def)
  then have "hasher_main (read_error_race [65]) ref_libs ''crc32c'' (shared_init 4) = None"
    apply (simp add: hasher_main_def create_hasher_def)
    apply (subst hasher_loop.simps)
    apply (simp add: MAX_ITERATIONS_def race_first_cycle)
    done
  moreover have "reader_main quiet [Chunk [65], ReadFail]
       \<lparr>mem = \<lparr>status = 0, len = 0, dataView = [0, 0, 0, 0]\<rparr>, clock = 0, trace = []\<rparr> =
     \<lparr>exit_code = 0, caught = Some SourceReadError,
      final = \<lparr>mem = \<lparr>status = 2, len = 1, dataView = [65, 0, 0, 0]\<rparr>, clock = 5,
        trace = [Load 0, BufWrite [65], StoreLen 1, StoreStatus 0 1, Notify,
                 StoreStatus 1 2, Notify]\<rparr>\<rparr>"
    by (simp add: reader_main_def reader_from_def reader_try_def reader_cycle_def
      reader_wait.simps prims quiet_def MAX_ITERATIONS_def to_int32_def)
  ultimately show ?thesis by simp
qed

section \<open>The end of the stream\<close>

text \<open>
  Claim C4 as stated fails: with a one-chunk file and a consumer that has not come back
  within eleven wait slices, the reader leaves its last wait loop by \<open>break\<close> and stores
  EOF over the status 1 of its own publication (\<open>StoreStatus 1 2\<close>); every status it
  loaded after publishing was 1.
\<close>

theorem reader_forces_eof_over_unconsumed_chunk:
  "reader_main quiet [Chunk [65]] (shared_init 1) =
    \<lparr>exit_code = 0, caught = None,
     final = \<lparr>mem = \<lparr>status = 2, len = 1, dataView = [65]\<rparr>, clock = 38, trace =
     [Load 0, BufWrite [65], StoreLen 1, StoreStatus 0 1, Notify,
      Load 1, Load 1, Wait TimedOut, Load 1, Load 1, Wait TimedOut, Load 1, Load 1, Wait TimedOut,
      Load 1, Load 1, Wait TimedOut, Load 1, Load 1, Wait TimedOut, Load 1, Load 1, Wait TimedOut,
      Load 1, Load 1, Wait TimedOut, Load 1, Load 1, Wait TimedOut, Load 1, Load 1, Wait TimedOut,
      Load 1, Load 1, Wait TimedOut, Load 1, Load 1, Wait TimedOut,
      StoreStatus 1 2, Notify]\<rparr>\<rparr>"
  by (simp add: reader_main_def reader_from_def reader_try_def reader_cycle_def
      reader_wait.simps reader_eof_wait.simps prims quiet_def shared_init_def
      MAX_ITERATIONS_def to_int32_def)

text \<open>
  Claim C4, amended. When the reader's loop over the stream has ended without an error,
  the reader stores EOF and notifies, and nothing follows the store but the
  notification (in particular no write to the buffer). The last thing it did before
  the store is one of: it loaded status READY; or a wait timed out with more than 10
  waits made (the forced EOF); or it made its 1000th wait.
\<close>

theorem reader_eof_after_ready_or_forced:
  assumes "reader_loop e iterations stream a = (None, a0)"
  shows "\<exists>waitCount a1 old.
           reader_eof_wait e 0 a0 = (waitCount, a1) \<and>
           reader_try e iterations stream a = (None, notify (store_status e EOF a1)) \<and>
           trace (notify (store_status e EOF a1)) = trace a1 @ [StoreStatus old EOF, Notify] \<and>
           (last (trace a1) = Load READY \<or>
            (10 < waitCount \<and> last (trace a1) = Wait TimedOut) \<or>
            waitCount = 1000)"
proof -
  obtain wc a1 where w: "reader_eof_wait e 0 a0 = (wc, a1)"
    by (cases "reader_eof_wait e 0 a0")
  have "last (trace a1) = Load 0 \<or> (10 < wc \<and> last (trace a1) = Wait TimedOut) \<or> wc = 1000"
    using reader_eof_wait_exit [OF w] by simp
  then show ?thesis
    using assms w by (simp add: reader_try_def prims EOF_def READY_def)
qed

theorem reader_eof_after_ready_or_forced_witness:
  "reader_loop quiet 0 [] (shared_init 1) = (None, shared_init 1) \<and>
   (\<exists>waitCount a1 old.
           reader_eof_wait quiet 0 (shared_init 1) = (waitCount, a1) \<and>
           reader_try quiet 0 [] (shared_init 1) = (None, notify (store_status quiet EOF a1)) \<and>
           trace (notify (store_status quiet EOF a1)) = trace a1 @ [StoreStatus old EOF, Notify] \<and>
           (last (trace a1) = Load READY \<or>
            (10 < waitCount \<and> last (trace a1) = Wait TimedOut) \<or>
            waitCount = 1000))"
  using reader_eof_after_ready_or_forced [of quiet 0 "[]" "shared_init 1" "shared_init 1"]
  by simp

section \<open>The empty file\<close>

lemma silent_eof_first: "silent_from (Suc 0) eof_first"
  by (simp add: silent_from_def eof_first_def)

text \<open>
  Claim C2, evaluated on the code. The file is empty and the reader is the faster worker:
  it finds status 0, stores EOF, notifies and exits (first conjunct: no publication, one
  change of the status word, READY to EOF). The hasher then runs its initial store of
  status 0, which replaces the EOF (second conjunct), and waits on status 0 with
  \<open>iterations = 1\<close>; its timeout branch never exits, so it waits for ever and prints
  no digest (third conjunct).
\<close>

theorem hasher_overwrites_eof_of_empty_file:
  "reader_main quiet (createReadStream 4 []) (shared_init 4) =
     \<lparr>exit_code = 0, caught = None,
      final = \<lparr>mem = \<lparr>status = 2, len = 0, dataView = [0, 0, 0, 0]\<rparr>, clock = 2,
        trace = [Load 0, StoreStatus 0 2, Notify]\<rparr>\<rparr> \<and>
   trace (store_status eof_first 0 (shared_init 4)) = [StoreStatus 2 0] \<and>
   hasher_main eof_first ref_libs ''crc32c'' (shared_init 4) = None"
proof -
  let ?a1 = "notify (store_status eof_first 0 (shared_init 4))"
  have r: "reader_main quiet (createReadStream 4 []) (shared_init 4) =
     \<lparr>exit_code = 0, caught = None,
      final = \<lparr>mem = \<lparr>status = 2, len = 0, dataView = [0, 0, 0, 0]\<rparr>, clock = 2,
        trace = [Load 0, StoreStatus 0 2, Notify]\<rparr>\<rparr>"
    by (simp add: reader_main_def reader_from_def reader_try_def createReadStream_def
        chunks_of.simps reader_eof_wait.simps prims quiet_def shared_init_def eval_nat_numeral)
  have t: "trace (store_status eof_first 0 (shared_init 4)) = [StoreStatus 2 0]"
    by (simp add: prims eof_first_def shared_init_def)
  have "status (mem ?a1) = 0" "Suc 0 \<le> clock ?a1" by (simp_all add: prims shared_init_def)
  then have "hasher_wait eof_first (Suc 0) ?a1 = None"
    using hasher_wait_silent [OF silent_eof_first, of "Suc 0" ?a1] by simp
  then have "hasher_cycle eof_first ref_libs (Suc 0) (Crc32c 0) ?a1 = None"
    by (simp add: hasher_cycle_def)
  then have "hasher_loop eof_first ref_libs 0 (Crc32c 0) ?a1 = None"
    by (subst hasher_loop.simps) (simp add: MAX_ITERATIONS_def)
  then have h: "hasher_main eof_first ref_libs ''crc32c'' (shared_init 4) = None"
    by (simp add: hasher_main_def create_hasher_def)
  show ?thesis using r t h by simp
qed

section \<open>Consuming a published chunk\<close>


section \<open>An algorithm name outside the supported set\<close>

text \<open>
  Claim C8 as stated fails: the name is checked by the hasher only. With the name
  \<open>md5\<close> the hasher throws, and the reader, which is started all the same and is not
  given the name, copies the chunk into the shared buffer.
\<close>

theorem reader_works_despite_unknown_algorithm:
  "hasher_main quiet ref_libs ''md5'' (shared_init 1) =
     Some (Uncaught (UnknownAlgorithm ''md5''), shared_init 1) \<and>
   buffer_writes (trace (final (reader_main quiet [Chunk [65]] (shared_init 1)))) = [[65]]"
  by (simp add: hasher_main_def create_hasher_def reader_main_def reader_from_def reader_try_def
      reader_cycle_def reader_wait.simps reader_eof_wait.simps prims quiet_def shared_init_def
      MAX_ITERATIONS_def to_int32_def)

text \<open>
  Claim C8, amended. For a name outside the four supported ones the hasher throws its
  unknown-algorithm error before its wait loop and before any access to the shared
  memory: its view of the memory and its trace are returned as they were, and it ends
  with exit code 1. (The reader is not given the name and is not held back by it.)
\<close>

theorem unknown_algorithm_stops_hasher_before_any_access:
  assumes "algo \<noteq> ''sha256''" "algo \<noteq> ''crc32c''" "algo \<noteq> ''xxh64''" "algo \<noteq> ''xxh3-64''"
  shows "hasher_main e L algo a = Some (Uncaught (UnknownAlgorithm algo), a) \<and>
         map_option (hasher_exit_code \<circ> fst) (hasher_main e L algo a) = Some 1"
  using assms by (simp add: hasher_main_def create_hasher_def)

theorem unknown_algorithm_stops_hasher_before_any_access_witness:
  "''md5'' \<noteq> ''sha256'' \<and> ''md5'' \<noteq> ''crc32c'' \<and> ''md5'' \<noteq> ''xxh64'' \<and>
   ''md5'' \<noteq> ''xxh3-64'' \<and>
   hasher_main quiet ref_libs ''md5'' (shared_init 4) =
     Some (Uncaught (UnknownAlgorithm ''md5''), shared_init 4) \<and>
   map_option (hasher_exit_code \<circ> fst) (hasher_main quiet ref_libs ''md5'' (shared_init 4)) =
     Some 1"
  using unknown_algorithm_stops_hasher_before_any_access
    [of "''md5''" quiet ref_libs "shared_init 4"]
  by simp

section \<open>Facts about the reference CRC-32C\<close>
















section \<open>Facts about \<open>toString(16)\<close>\<close>

lemma hex_digit_cases: "d < 16 \<Longrightarrow> d \<in> {0,1,2,3,4,5,6,7,8,9,10,11,12,13,14,15::nat}"
  by simp arith

lemma hex_digit_value_digit: "d < 16 \<Longrightarrow> hex_digit_value (hex_digit d) = d"
  using hex_digit_cases [of d]
  by (auto simp: hex_digit_def hex_digit_value_def)

lemma hex_value_snoc: "hex_value (s @ [c]) = 16 * hex_value s + hex_digit_value c"
  by (simp add: hex_value_def)

lemma hex_value_digits: "hex_value (hex_digits n) = n"
proof (induction n rule: hex_digits.induct)
  case (1 n)
  show ?case
  proof (cases "n < 16")
    case True
    then show ?thesis
      by (subst hex_digits.simps) (simp add: hex_value_def hex_digit_value_digit)
  next
    case False
    then show ?thesis
      using 1 by (subst hex_digits.simps) (simp add: hex_value_snoc hex_digit_value_digit)
  qed
qed


lemma hex_digit_lower: "d < 16 \<Longrightarrow> hex_digit d \<in> set ''0123456789abcdef''"
  using hex_digit_cases [of d]
  by (auto simp: hex_digit_def)

lemma hex_digit_zero: "d < 16 \<Longrightarrow> hex_digit d = CHR ''0'' \<Longrightarrow> d = 0"
  using hex_digit_cases [of d]
  by (auto simp: hex_digit_def)

lemma lower_hex_digits: "lower_hex (hex_digits n)"
proof (induction n rule: hex_digits.induct)
  case (1 n)
  show ?case
  proof (cases "n < 16")
    case True
    then show ?thesis
      using hex_digit_lower [of n] by (subst hex_digits.simps) (simp add: lower_hex_def)
  next
    case False
    then show ?thesis
      using 1 hex_digit_lower [of "n mod 16"]
      by (subst hex_digits.simps) (simp add: lower_hex_def)
  qed
qed

lemma hex_digits_nonempty: "hex_digits n \<noteq> []"
  by (subst hex_digits.simps) simp

lemma hex_digits_no_leading_zero: "0 < n \<Longrightarrow> hd (hex_digits n) \<noteq> CHR ''0''"
proof (induction n rule: hex_digits.induct)
  case (1 n)
  show ?case
  proof (cases "n < 16")
    case True
    then show ?thesis
      using hex_digit_zero [of n] 1(2) by (subst hex_digits.simps) auto
  next
    case False
    then have "0 < n div 16" by (simp add: div_greater_zero_iff)
    then show ?thesis
      using 1(1) False by (subst hex_digits.simps) (simp add: hex_digits_nonempty)
  qed
qed

lemma hex_digits_zero: "hex_digits 0 = ''0''"
  by (subst hex_digits.simps) (simp add: hex_digit_def)

lemma finalDigest_number:
  "digest_number L h = Some v \<Longrightarrow> finalDigest L h = toString16 v"
  by (cases h) auto

lemma hex_e3069283: "hex_digits 3808858755 = ''e3069283''"
  by (simp add: hex_digits.simps hex_digit_def)

text \<open>
  Claim C9 as stated fails: the digest of the empty input under crc32c is the number 0,
  and the hasher, initialised first and then shown the reader's EOF, prints it as the
  one character \<open>0\<close>, not as eight.
\<close>

theorem crc_digest_not_zero_padded:
  "map_option fst (hasher_main (reader_peer []) ref_libs ''crc32c'' (shared_init 4)) =
     Some (Printed ''0'') \<and>
   length ''0'' < (8 :: nat)"
  apply (simp add: hasher_main_def create_hasher_def)
  apply (subst hasher_loop.simps)
  apply (simp add: MAX_ITERATIONS_def hasher_cycle_def)
  apply (subst hasher_wait.simps)
  apply (simp add: prims reader_peer_def shared_init_def hasher_dispatch_def toString16_def
      hex_digits_zero)
  done

text \<open>
  Claim C9, amended. A numeric digest (crc32c, xxh64, xxh3-64) that is not negative, as
  the libraries return it, is printed in lowercase hexadecimal digits only, hence without
  a sign; reading the text back gives the number, so nothing is lost; and the text has no
  leading zero (the number 0 is printed as \<open>0\<close>): its width is the least possible, not
  a fixed one.
\<close>

theorem numeric_digest_minimal_lowercase_hex:
  assumes "digest_number L h = Some v" "0 \<le> v"
  shows "lower_hex (finalDigest L h) \<and> int (hex_value (finalDigest L h)) = v \<and>
         (if v = 0 then finalDigest L h = ''0'' else hd (finalDigest L h) \<noteq> CHR ''0'')"
proof -
  have d: "finalDigest L h = hex_digits (nat v)"
    using finalDigest_number [OF assms(1)] assms(2) by (simp add: toString16_def)
  show ?thesis
    using assms(2) hex_digits_no_leading_zero [of "nat v"]
    by (simp add: d lower_hex_digits hex_value_digits hex_digits_zero)
qed

theorem numeric_digest_minimal_lowercase_hex_witness:
  "digest_number ref_libs (Crc32c 3808858755) = Some 3808858755 \<and> (0::int) \<le> 3808858755 \<and>
   finalDigest ref_libs (Crc32c 3808858755) = ''e3069283'' \<and>
   lower_hex (finalDigest ref_libs (Crc32c 3808858755)) \<and>
   int (hex_value (finalDigest ref_libs (Crc32c 3808858755))) = 3808858755 \<and>
   hd (finalDigest ref_libs (Crc32c 3808858755)) \<noteq> CHR ''0''"
  using numeric_digest_minimal_lowercase_hex [of ref_libs "Crc32c 3808858755" 3808858755]
  by (simp add: toString16_def hex_e3069283)

section \<open>Chunks and streaming libraries\<close>












section \<open>The two workers in strict alternation\<close>




















end
